theory Spec2Isabelle
  imports Complex_Main "HOL-Library.Multiset" "HOL-Library.Log_Nat"
begin

section \<open>Resource estimation for Trotterised vibronic dynamics\<close>

text \<open>
  A shallow embedding of the arithmetic glue of \<^verbatim>\<open>Resource_Estimation_Tutorial.ipynb\<close>:
  the Trotter step-count formula, the overridden QFT decomposition, the loading of the
  coupling tensors, the per-fragment cost aggregation and the second-order Trotter step
  schedule.

  Python floats are idealised as real numbers (no rounding, no overflow); Python integers
  are \<^typ>\<open>int\<close>. Every exception the modelled code can raise is a value of
  \<open>py_error\<close>, returned as \<open>Inl\<close>.
\<close>

subsection \<open>Exceptions\<close>

datatype py_error =
    ZeroDivisionError
  | TypeError
  | ValueError
  | KeyError int
  | IndexError
  | NameError

subsection \<open>Number of Trotter steps\<close>

text \<open>
  \<^verbatim>\<open>
  def num_steps(norm, req_error, total_time):
      return math.ceil(total_time**1.5 * (norm / req_error)**0.5)
  \<close>
  The first argument is what \<^verbatim>\<open>get_norm_value\<close> returned: a float, or \<^verbatim>\<open>None\<close>
  when the norm table has no entry. Dividing \<^verbatim>\<open>None\<close> raises \<^verbatim>\<open>TypeError\<close>;
  dividing by a zero float raises \<^verbatim>\<open>ZeroDivisionError\<close>; a negative float raised to a
  fractional power is a complex number, which \<^verbatim>\<open>math.ceil\<close> rejects with
  \<^verbatim>\<open>TypeError\<close>.
\<close>

fun num_steps :: "real option \<Rightarrow> real \<Rightarrow> real \<Rightarrow> py_error + int" where
  "num_steps None req_error total_time = Inl TypeError"
| "num_steps (Some nrm) req_error total_time =
     (if req_error = 0 then Inl ZeroDivisionError
      else if total_time < 0 \<or> nrm / req_error < 0 then Inl TypeError
      else Inr \<lceil>total_time powr 1.5 * (nrm / req_error) powr 0.5\<rceil>)"

text \<open>
  The cell that computes the step counts, with the names it binds
  (\<open>None\<close> for a name the cell leaves unbound):
  \<^verbatim>\<open>
  if norm_OG is not None:
      nsteps_OG = num_steps(norm_OG, req_error, total_time)
  if norm_OG is not None:
      nsteps_mode = num_steps(norm_mode, req_error, total_time)
  \<close>
\<close>

record step_counts =
  nsteps_OG :: "int option"
  nsteps_mode :: "int option"

definition step_count_cell ::
  "real option \<Rightarrow> real option \<Rightarrow> real \<Rightarrow> real \<Rightarrow> py_error + step_counts" where
  "step_count_cell norm_OG norm_mode req_error total_time =
     (case (if norm_OG \<noteq> None
            then map_sum id Some (num_steps norm_OG req_error total_time)
            else Inr None) of
        Inl e \<Rightarrow> Inl e
      | Inr n_OG \<Rightarrow>
          (case (if norm_OG \<noteq> None
                 then map_sum id Some (num_steps norm_mode req_error total_time)
                 else Inr None) of
             Inl e \<Rightarrow> Inl e
           | Inr n_mode \<Rightarrow> Inr \<lparr>nsteps_OG = n_OG, nsteps_mode = n_mode\<rparr>))"

subsection \<open>The QFT resource decomposition\<close>

text \<open>
  \<^verbatim>\<open>math.ceil(math.log2(n))\<close> on a Python integer: \<^verbatim>\<open>math.log2\<close> raises
  \<^verbatim>\<open>ValueError\<close> unless \<open>n\<close> is positive.
\<close>

definition py_ceil_log2 :: "int \<Rightarrow> py_error + int" where
  "py_ceil_log2 n = (if n \<le> 0 then Inl ValueError else Inr \<lceil>log 2 (real_of_int n)\<rceil>)"

text \<open>The gate set \<^verbatim>\<open>my_gs\<close> of the notebook.\<close>

datatype gate = PauliX | PauliZ | PauliY | SGate | Hadamard | CNOT | TGate | Toffoli







subsection \<open>Loading the Hamiltonian\<close>

text \<open>
  A NumPy array: its shape and its entries in row-major order.
\<close>

record ndarray =
  shape :: "nat list"
  elems :: "real list"

definition np_zeros :: "nat list \<Rightarrow> ndarray" where
  "np_zeros shp = \<lparr>shape = shp, elems = replicate (prod_list shp) 0\<rparr>"

text \<open>\<^verbatim>\<open>a.shape[i]\<close> for a non-negative index: \<^verbatim>\<open>IndexError\<close> past the last axis.\<close>

definition shape_at :: "ndarray \<Rightarrow> nat \<Rightarrow> py_error + nat" where
  "shape_at a i = (if i < length (shape a) then Inr (shape a ! i) else Inl IndexError)"

text \<open>
  The unpickled \<^verbatim>\<open>couplings\<close> is a dictionary from the coupling order (0, 1, 2) to
  the coupling tensor of that order.
  \<^verbatim>\<open>
  omegas, couplings = pickle.load(filehandler)
  QVC = bool(2 in couplings)
  omegas = np.array(omegas)
  lambdas = couplings[0]
  alphas = couplings[1]
  N, M = alphas.shape[0], alphas.shape[2]
  log_N = math.ceil(math.log2(N))
  if QVC:
      betas = couplings[2]
  else:
      betas = np.zeros((N, N, M, M))
  \<close>
\<close>

record hamiltonian =
  QVC :: bool
  omegas :: "real list"
  lambdas :: ndarray
  alphas :: ndarray
  N :: nat
  M :: nat
  log_N :: int
  betas :: ndarray

definition load_hamiltonian :: "real list \<Rightarrow> (int \<rightharpoonup> ndarray) \<Rightarrow> py_error + hamiltonian" where
  "load_hamiltonian oms couplings =
     (let qvc = (2 \<in> dom couplings) in
      case couplings 0 of
        None \<Rightarrow> Inl (KeyError 0)
      | Some lam \<Rightarrow>
      (case couplings 1 of
        None \<Rightarrow> Inl (KeyError 1)
      | Some al \<Rightarrow>
      (case shape_at al 0 of
        Inl e \<Rightarrow> Inl e
      | Inr n \<Rightarrow>
      (case shape_at al 2 of
        Inl e \<Rightarrow> Inl e
      | Inr m \<Rightarrow>
      (case py_ceil_log2 (int n) of
        Inl e \<Rightarrow> Inl e
      | Inr lg \<Rightarrow>
      (if qvc then
         (case couplings 2 of
            None \<Rightarrow> Inl (KeyError 2)
          | Some be \<Rightarrow>
              Inr \<lparr>QVC = qvc, omegas = oms, lambdas = lam, alphas = al,
                   N = n, M = m, log_N = lg, betas = be\<rparr>)
       else
         Inr \<lparr>QVC = qvc, omegas = oms, lambdas = lam, alphas = al,
              N = n, M = m, log_N = lg, betas = np_zeros [n, n, m, m]\<rparr>))))))"

subsection \<open>Resource estimates\<close>

text \<open>
  Modelled from the spec: the \<^verbatim>\<open>Resources\<close> class of the external estimation library,
  with its \<^verbatim>\<open>+\<close>, \<^verbatim>\<open>*\<close> and \<^verbatim>\<open>==\<close>, is not part of the notebook. The spec
  describes a resource estimate as "an aggregate record of {qubit count, per-gate-type
  counts}, supporting addition and scalar multiplication (summing costs of
  sequential/repeated operations)". Gate counts of operations applied in sequence add up,
  and repeating an operation multiplies them. Operations applied in sequence reuse the
  same qubits, so the qubit count of a sum is the larger of the two and repetition leaves
  it unchanged: the notebook prints the same qubit count, 146, for the kinetic fragment,
  for every Trotter step and for the whole algorithm. Two estimates are equal when their
  qubit counts and all their gate counts are.
\<close>

record resources =
  qubit_count :: nat
  gate_counts :: "gate \<Rightarrow> int"

text \<open>
  Modelled from the spec: the empty estimate (no qubits, no gates), the neutral element
  of the "monoid under addition"; the library's constructor is not part of the notebook.
\<close>

definition res_zero :: resources where
  "res_zero = \<lparr>qubit_count = 0, gate_counts = (\<lambda>g. 0)\<rparr>"

text \<open>
  Modelled from the spec: \<^verbatim>\<open>a + b\<close>, the library's \<^verbatim>\<open>Resources.__add__\<close>, which is
  not part of the notebook ("summing costs of sequential operations").
\<close>

definition res_add :: "resources \<Rightarrow> resources \<Rightarrow> resources" where
  "res_add a b =
     \<lparr>qubit_count = max (qubit_count a) (qubit_count b),
      gate_counts = (\<lambda>g. gate_counts a g + gate_counts b g)\<rparr>"

text \<open>
  Modelled from the spec: \<^verbatim>\<open>a * scalar\<close> and \<^verbatim>\<open>scalar * a\<close>, the library's
  \<^verbatim>\<open>Resources.__mul__\<close> and \<^verbatim>\<open>__rmul__\<close>, which are not part of the notebook
  ("summing costs of repeated operations").
\<close>

definition res_mul :: "resources \<Rightarrow> int \<Rightarrow> resources" where
  "res_mul a scalar =
     \<lparr>qubit_count = qubit_count a,
      gate_counts = (\<lambda>g. gate_counts a g * scalar)\<rparr>"

text \<open>
  Modelled from the spec: \<^verbatim>\<open>res.clean_gate_counts.get("Toffoli", 0)\<close>, the Toffoli
  entry of the per-gate-type counts; the property \<^verbatim>\<open>clean_gate_counts\<close> of the library
  is not part of the notebook.
\<close>

definition toffoli :: "resources \<Rightarrow> int" where
  "toffoli res = gate_counts res Toffoli"


definition weighted_sum :: "(int \<times> resources) list \<Rightarrow> resources" where
  "weighted_sum ws = foldl (\<lambda>acc (w, r). res_add acc (res_mul r w)) res_zero ws"

subsection \<open>Cost of a fragment\<close>

text \<open>
  \<^verbatim>\<open>
  res_list_OG = [res_kinetic]
  for i in range(len(fragments_OG)-1):
      num_Qr, num_Qr2, num_QrQs = count_nonzero_Q_terms(fragments_OG[i])
      res_frag = num_Qr * res_Q + num_Qr2 * res_Qsquared + num_QrQs * res_QrQs
      res_list_OG.append(res_frag)
  \<close>
  The same loop builds \<^verbatim>\<open>res_list_mode\<close> from \<^verbatim>\<open>fragments_mode\<close>.
  \<^verbatim>\<open>count_nonzero_Q_terms\<close> comes from the \<^verbatim>\<open>utils\<close> module and is a parameter here.
\<close>

definition res_frag ::
  "int \<times> int \<times> int \<Rightarrow> resources \<Rightarrow> resources \<Rightarrow> resources \<Rightarrow> resources" where
  "res_frag counts res_Q res_Qsquared res_QrQs =
     (case counts of (num_Qr, num_Qr2, num_QrQs) \<Rightarrow>
        res_add (res_add (res_mul res_Q num_Qr) (res_mul res_Qsquared num_Qr2))
                (res_mul res_QrQs num_QrQs))"

definition res_list ::
  "('frag \<Rightarrow> int \<times> int \<times> int) \<Rightarrow> resources \<Rightarrow> resources \<Rightarrow> resources \<Rightarrow> resources
     \<Rightarrow> 'frag list \<Rightarrow> resources list" where
  "res_list count_nonzero_Q_terms res_kinetic res_Q res_Qsquared res_QrQs fragments =
     res_kinetic #
     map (\<lambda>frag. res_frag (count_nonzero_Q_terms frag) res_Q res_Qsquared res_QrQs)
         (butlast fragments)"

subsection \<open>Cost of a second-order Trotter step\<close>

text \<open>
  \<^verbatim>\<open>
  res_expensive_frags = sorted(res_list_OG,
      key=lambda res_frag: res_frag.clean_gate_counts.get("Toffoli", 0), reverse=True)[:2]
  step_OG_res = res_expensive_frags[0] + res_expensive_frags[1]
  for res in res_list_OG:
      if res not in res_expensive_frags:
          step_OG_res += res * 2
  \<close>
  \<^verbatim>\<open>step_mode_res\<close> is computed by the same code from \<^verbatim>\<open>res_list_mode\<close>.
  Python's \<^verbatim>\<open>sorted\<close> is stable, also with \<^verbatim>\<open>reverse=True\<close>; \<open>sort_key\<close> on the
  negated key is the same order. \<^verbatim>\<open>x not in xs\<close> compares \<open>x\<close> with the elements of
  \<open>xs\<close> by \<^verbatim>\<open>==\<close>.
\<close>

definition sorted_by_toffoli_desc :: "resources list \<Rightarrow> resources list" where
  "sorted_by_toffoli_desc rs = sort_key (\<lambda>res. - toffoli res) rs"

definition step_res :: "resources list \<Rightarrow> py_error + resources" where
  "step_res rs =
     (let res_expensive_frags = take 2 (sorted_by_toffoli_desc rs) in
      case res_expensive_frags of
        [e0, e1] \<Rightarrow>
          Inr (foldl (\<lambda>step res. if res \<notin> set res_expensive_frags
                                   then res_add step (res_mul res 2) else step)
                     (res_add e0 e1) rs)
      | _ \<Rightarrow> Inl IndexError)"

text \<open>
  The step cost as the documentation of the notebook states it: every fragment counts,
  the two fragments with the largest Toffoli counts once and every other fragment twice.
\<close>

definition scheduled_step_cost :: "resources list \<Rightarrow> resources" where
  "scheduled_step_cost rs =
     (let s = sorted_by_toffoli_desc rs
      in weighted_sum (map (Pair 1) (take 2 s) @ map (Pair 2) (drop 2 s)))"

subsection \<open>Total cost of the algorithm\<close>

text \<open>
  \<^verbatim>\<open>
  if norm_OG is not None:
      res_total_OG = res_initial + step_OG_res*nsteps_OG
  if norm_OG is not None:
      res_total_mode = res_initial + step_mode_res*nsteps_mode
  \<close>
  Reading a name that the step-count cell left unbound raises \<^verbatim>\<open>NameError\<close>.
\<close>

record total_costs =
  res_total_OG :: "resources option"
  res_total_mode :: "resources option"

definition total_cost_cells ::
  "real option \<Rightarrow> step_counts \<Rightarrow> resources \<Rightarrow> resources \<Rightarrow> resources
     \<Rightarrow> py_error + total_costs" where
  "total_cost_cells norm_OG counts res_initial step_OG_res step_mode_res =
     (case (if norm_OG \<noteq> None
            then (case nsteps_OG counts of
                    None \<Rightarrow> Inl NameError
                  | Some n \<Rightarrow> Inr (Some (res_add res_initial (res_mul step_OG_res n))))
            else Inr None) of
        Inl e \<Rightarrow> Inl e
      | Inr total_OG \<Rightarrow>
          (case (if norm_OG \<noteq> None
                 then (case nsteps_mode counts of
                         None \<Rightarrow> Inl NameError
                       | Some n \<Rightarrow> Inr (Some (res_add res_initial (res_mul step_mode_res n))))
                 else Inr None) of
             Inl e \<Rightarrow> Inl e
           | Inr total_mode \<Rightarrow>
               Inr \<lparr>res_total_OG = total_OG, res_total_mode = total_mode\<rparr>))"

text \<open>The step-count cell followed by the two total-cost cells.\<close>

definition cost_cells ::
  "real option \<Rightarrow> real option \<Rightarrow> real \<Rightarrow> real \<Rightarrow> resources \<Rightarrow> resources \<Rightarrow> resources
     \<Rightarrow> py_error + total_costs" where
  "cost_cells norm_OG norm_mode req_error total_time res_initial step_OG_res step_mode_res =
     (case step_count_cell norm_OG norm_mode req_error total_time of
        Inl e \<Rightarrow> Inl e
      | Inr counts \<Rightarrow> total_cost_cells norm_OG counts res_initial step_OG_res step_mode_res)"

subsection \<open>Sample data\<close>

text \<open>
  Estimates with the Toffoli counts the notebook prints for the kinetic fragment and for
  the linear, quadratic and bilinear term circuits, and a small coupling dictionary
  without a bilinear entry.
\<close>

definition sample_kinetic :: resources where
  "sample_kinetic = \<lparr>qubit_count = 146, gate_counts = (\<lambda>g. if g = Toffoli then 5358 else 0)\<rparr>"

definition sample_Q :: resources where
  "sample_Q = \<lparr>qubit_count = 146, gate_counts = (\<lambda>g. if g = Toffoli then 146 else 0)\<rparr>"

definition sample_Qsquared :: resources where
  "sample_Qsquared = \<lparr>qubit_count = 146, gate_counts = (\<lambda>g. if g = Toffoli then 272 else 0)\<rparr>"

definition sample_QrQs :: resources where
  "sample_QrQs = \<lparr>qubit_count = 146, gate_counts = (\<lambda>g. if g = Toffoli then 310 else 0)\<rparr>"

definition sample_lambdas :: ndarray where
  "sample_lambdas = \<lparr>shape = [2, 2], elems = replicate 4 1\<rparr>"

definition sample_alphas :: ndarray where
  "sample_alphas = \<lparr>shape = [2, 2, 3], elems = replicate 12 1\<rparr>"

definition sample_couplings :: "int \<rightharpoonup> ndarray" where
  "sample_couplings = [0 \<mapsto> sample_lambdas, 1 \<mapsto> sample_alphas]"

section \<open>Helper lemmas\<close>

subsection \<open>Step counts\<close>

lemma num_steps_nonneg:
  assumes "0 \<le> nrm" "0 < req_error" "0 \<le> total_time"
  shows "num_steps (Some nrm) req_error total_time =
           Inr \<lceil>total_time powr (3/2) * sqrt (nrm / req_error)\<rceil>"
proof -
  have "0 \<le> nrm / req_error" using assms by simp
  then show ?thesis using assms by (simp add: powr_half_sqrt not_less)
qed

lemma num_steps_InrD:
  assumes "num_steps (Some nrm) req_error total_time = Inr n"
  shows "req_error \<noteq> 0 \<and> 0 \<le> total_time \<and> 0 \<le> nrm / req_error \<and>
         n = \<lceil>total_time powr (3/2) * sqrt (nrm / req_error)\<rceil>"
  using assms by (auto simp: powr_half_sqrt not_less split: if_splits)

lemma ceiling_half: "\<lceil>(1 / 2 :: real)\<rceil> = 1"
  by (simp add: ceiling_eq_iff)

lemma num_steps_samples:
  "num_steps (Some 1) 1 1 = Inr 1"
  "num_steps (Some 4) 1 1 = Inr 2"
  "num_steps (Some 4) 4 1 = Inr 1"
  "num_steps (Some 1) 4 1 = Inr 1"
  by (simp_all add: powr_half_sqrt real_sqrt_divide ceiling_half)

subsection \<open>Ceiling of the binary logarithm\<close>







subsection \<open>The step-count and total-cost cells\<close>

lemma step_count_cell_no_OG_norm:
  "step_count_cell None norm_mode req_error total_time =
     Inr \<lparr>nsteps_OG = None, nsteps_mode = None\<rparr>"
  by (simp add: step_count_cell_def)

lemma cost_cells_no_OG_norm:
  "cost_cells None norm_mode req_error total_time res_initial step_OG step_mode =
     Inr \<lparr>res_total_OG = None, res_total_mode = None\<rparr>"
  by (simp add: cost_cells_def step_count_cell_no_OG_norm total_cost_cells_def)

lemma step_count_cell_both_norms:
  assumes "0 \<le> n_OG" and "0 \<le> n_mode" and "0 < req_error" and "0 \<le> total_time"
  shows "\<exists>a b. step_count_cell (Some n_OG) (Some n_mode) req_error total_time
                  = Inr \<lparr>nsteps_OG = Some a, nsteps_mode = Some b\<rparr>"
  using assms
  by (simp add: step_count_cell_def num_steps_nonneg del: num_steps.simps)

subsection \<open>Algebra of resource estimates\<close>

lemma resources_eqI:
  fixes a b :: resources
  assumes "qubit_count a = qubit_count b" and "\<And>g. gate_counts a g = gate_counts b g"
  shows "a = b"
proof -
  have "gate_counts a = gate_counts b" using assms(2) by (rule ext)
  with assms(1) show ?thesis by simp
qed

lemma res_add_sel [simp]:
  "qubit_count (res_add a b) = max (qubit_count a) (qubit_count b)"
  "gate_counts (res_add a b) g = gate_counts a g + gate_counts b g"
  by (simp_all add: res_add_def)

lemma res_mul_sel [simp]:
  "qubit_count (res_mul a k) = qubit_count a"
  "gate_counts (res_mul a k) g = gate_counts a g * k"
  by (simp_all add: res_mul_def)

lemma res_zero_sel [simp]:
  "qubit_count res_zero = 0"
  "gate_counts res_zero g = 0"
  by (simp_all add: res_zero_def)



lemma res_add_zero_left: "res_add res_zero a = a"
  by (rule resources_eqI) simp_all


lemma res_mul_one: "res_mul a 1 = a"
  by (rule resources_eqI) simp_all




lemma foldl_weighted_gate_counts:
  "gate_counts (foldl (\<lambda>acc (w, r). res_add acc (res_mul r w)) acc ws) g =
     gate_counts acc g + (\<Sum>(w, r)\<leftarrow>ws. gate_counts r g * w)"
  by (induction ws arbitrary: acc) (auto simp: algebra_simps)

lemma Max_insert_max:
  fixes a b :: nat
  assumes "finite S"
  shows "Max (insert (max a b) S) = Max (insert a (insert b S))"
  using assms by (cases "S = {}") (simp_all add: max.assoc)

lemma foldl_weighted_qubit_count:
  "qubit_count (foldl (\<lambda>acc (w, r). res_add acc (res_mul r w)) acc ws) =
     Max (insert (qubit_count acc) ((\<lambda>(w, r). qubit_count r) ` set ws))"
proof (induction ws arbitrary: acc)
  case Nil
  show ?case by simp
next
  case (Cons x ws)
  obtain w r where x: "x = (w, r)" by (cases x)
  have fin: "finite ((\<lambda>(w, r). qubit_count r) ` set ws)" by simp
  show ?case
    unfolding x by (simp add: Cons.IH Max_insert_max[OF fin] insert_commute)
qed

lemma weighted_sum_gate_counts:
  "gate_counts (weighted_sum ws) g = (\<Sum>(w, r)\<leftarrow>ws. gate_counts r g * w)"
  by (simp add: weighted_sum_def foldl_weighted_gate_counts)

lemma weighted_sum_qubit_count:
  "qubit_count (weighted_sum ws) = Max (insert 0 ((\<lambda>(w, r). qubit_count r) ` set ws))"
  by (simp add: weighted_sum_def foldl_weighted_qubit_count)

lemma foldl_weighted_mset:
  assumes "mset ws = mset ws'"
  shows "foldl (\<lambda>acc (w, r). res_add acc (res_mul r w)) acc ws
           = foldl (\<lambda>acc (w, r). res_add acc (res_mul r w)) acc ws'"
proof (rule resources_eqI)
  have "set ws = set ws'" using assms by (rule mset_eq_setD)
  then show "qubit_count (foldl (\<lambda>acc (w, r). res_add acc (res_mul r w)) acc ws)
               = qubit_count (foldl (\<lambda>acc (w, r). res_add acc (res_mul r w)) acc ws')"
    by (simp add: foldl_weighted_qubit_count)
next
  fix g
  have "(\<Sum>(w, r)\<leftarrow>ws. gate_counts r g * w)
          = sum_mset (image_mset (\<lambda>(w, r). gate_counts r g * w) (mset ws))"
    by (simp add: sum_mset_sum_list[symmetric] del: sum_mset_sum_list)
  also have "\<dots> = sum_mset (image_mset (\<lambda>(w, r). gate_counts r g * w) (mset ws'))"
    by (simp only: assms)
  also have "\<dots> = (\<Sum>(w, r)\<leftarrow>ws'. gate_counts r g * w)"
    by (simp add: sum_mset_sum_list[symmetric] del: sum_mset_sum_list)
  finally show "gate_counts (foldl (\<lambda>acc (w, r). res_add acc (res_mul r w)) acc ws) g
                  = gate_counts (foldl (\<lambda>acc (w, r). res_add acc (res_mul r w)) acc ws') g"
    by (simp add: foldl_weighted_gate_counts)
qed


lemma toffoli_samples [simp]:
  "toffoli sample_kinetic = 5358"
  "toffoli sample_Q = 146"
  "toffoli sample_Qsquared = 272"
  "toffoli sample_QrQs = 310"
  by (simp_all add: toffoli_def sample_kinetic_def sample_Q_def sample_Qsquared_def
        sample_QrQs_def)

lemma toffoli_res_add: "toffoli (res_add a b) = toffoli a + toffoli b"
  by (simp add: toffoli_def)

lemma toffoli_res_mul: "toffoli (res_mul a k) = toffoli a * k"
  by (simp add: toffoli_def)

lemma toffoli_weighted_sum: "toffoli (weighted_sum ws) = (\<Sum>(w, r)\<leftarrow>ws. toffoli r * w)"
  by (simp add: toffoli_def weighted_sum_gate_counts)

lemma res_frag_eq_weighted_sum:
  "res_frag (num_Qr, num_Qr2, num_QrQs) res_Q res_Qsquared res_QrQs =
     weighted_sum [(num_Qr, res_Q), (num_Qr2, res_Qsquared), (num_QrQs, res_QrQs)]"
  by (simp add: res_frag_def weighted_sum_def res_add_zero_left)

lemma res_frag_one_linear_term:
  "res_frag (1, 0, 0) sample_Q sample_Qsquared sample_QrQs = sample_Q"
  by (rule resources_eqI)
     (simp_all add: res_frag_def sample_Q_def sample_Qsquared_def sample_QrQs_def)

subsection \<open>The step cost on lists of pairwise different estimates\<close>

lemma step_loop_as_weighted:
  "foldl (\<lambda>step res. if res \<notin> ex then res_add step (res_mul res 2) else step) acc rs
     = foldl (\<lambda>acc (w, r). res_add acc (res_mul r w)) acc
         (map (Pair 2) (filter (\<lambda>res. res \<notin> ex) rs))"
  by (induction rs arbitrary: acc) simp_all

lemma filter_not_in_prefix:
  assumes "distinct (xs @ ys)"
  shows "filter (\<lambda>x. x \<notin> set xs) (xs @ ys) = ys"
proof -
  have "filter (\<lambda>x. x \<notin> set xs) xs = []" by (simp add: filter_empty_conv)
  moreover have "filter (\<lambda>x. x \<notin> set xs) ys = ys"
    using assms by (auto simp: filter_id_conv)
  ultimately show ?thesis by simp
qed

lemma step_res_short:
  assumes "length rs < 2"
  shows "step_res rs = Inl IndexError"
proof -
  have "length (sorted_by_toffoli_desc rs) < 2"
    using assms by (simp add: sorted_by_toffoli_desc_def)
  then have "sorted_by_toffoli_desc rs = [] \<or> (\<exists>x. sorted_by_toffoli_desc rs = [x])"
    by (cases "sorted_by_toffoli_desc rs"; cases "tl (sorted_by_toffoli_desc rs)") auto
  then show ?thesis by (auto simp: step_res_def)
qed

lemma step_res_distinct:
  assumes "distinct rs" and "2 \<le> length rs"
  shows "step_res rs = Inr (scheduled_step_cost rs)"
proof -
  define s where "s = sorted_by_toffoli_desc rs"
  have ms: "mset s = mset rs" by (simp add: s_def sorted_by_toffoli_desc_def)
  then have ds: "distinct s" using assms(1) by (metis mset_eq_imp_distinct_iff)
  have "length s = length rs" using ms by (rule mset_eq_length)
  then have len: "2 \<le> length s" using assms(2) by simp
  then obtain e0 e1 where ex: "take 2 s = [e0, e1]"
    by (cases s; cases "tl s") (auto simp: numeral_2_eq_2)
  have split: "s = take 2 s @ drop 2 s" by simp
  have "mset (filter (\<lambda>res. res \<notin> set (take 2 s)) rs)
          = mset (filter (\<lambda>res. res \<notin> set (take 2 s)) s)"
    by (simp only: mset_filter ms)
  also have "filter (\<lambda>res. res \<notin> set (take 2 s)) s = drop 2 s"
    using filter_not_in_prefix[of "take 2 s" "drop 2 s"] ds by simp
  finally have rest: "mset (map (Pair (2::int)) (filter (\<lambda>res. res \<notin> set (take 2 s)) rs))
                        = mset (map (Pair 2) (drop 2 s))"
    by simp
  have "step_res rs =
          Inr (foldl (\<lambda>step res. if res \<notin> set [e0, e1]
                                   then res_add step (res_mul res 2) else step)
                 (res_add e0 e1) rs)"
    by (simp add: step_res_def Let_def s_def[symmetric] ex)
  also have "\<dots> =
          Inr (foldl (\<lambda>acc (w, r). res_add acc (res_mul r w)) (res_add e0 e1)
                 (map (Pair 2) (filter (\<lambda>res. res \<notin> set [e0, e1]) rs)))"
    by (simp only: step_loop_as_weighted)
  also have "\<dots> = Inr (foldl (\<lambda>acc (w, r). res_add acc (res_mul r w)) (res_add e0 e1)
                 (map (Pair 2) (drop 2 s)))"
    by (simp only: foldl_weighted_mset[OF rest[unfolded ex]])
  also have "\<dots> = Inr (scheduled_step_cost rs)"
    by (simp add: scheduled_step_cost_def s_def[symmetric] ex weighted_sum_def
          res_add_zero_left res_mul_one Let_def)
  finally show ?thesis .
qed

section \<open>Claims\<close>

subsection \<open>C1: the step-count formula\<close>




subsection \<open>C2: determinism and monotonicity of the step count\<close>

text \<open>
  C2: \<open>num_steps\<close> is a function of its three arguments (equal inputs give equal
  outputs). For a fixed positive tolerance and a fixed positive time, a larger norm never
  gives a smaller step count; for a fixed positive norm, a larger tolerance never gives a
  larger step count. The step counts compared are the integers the two calls return;
  the last conjunct shows that the call does return for every non-negative norm,
  positive tolerance and non-negative time.
\<close>

theorem num_steps_monotone:
  "(x = x' \<and> e = e' \<and> t = t' \<longrightarrow> num_steps x e t = num_steps x' e' t')
   \<and> (0 < req_error \<and> 0 < total_time \<and> nrm_lo \<le> nrm_hi
        \<and> num_steps (Some nrm_lo) req_error total_time = Inr a
        \<and> num_steps (Some nrm_hi) req_error total_time = Inr b \<longrightarrow> a \<le> b)
   \<and> (0 < nrm \<and> err_lo \<le> err_hi
        \<and> num_steps (Some nrm) err_lo tm = Inr c
        \<and> num_steps (Some nrm) err_hi tm = Inr d \<longrightarrow> d \<le> c)
   \<and> (0 \<le> nrm' \<and> 0 < err \<and> 0 \<le> tm' \<longrightarrow> (\<exists>n. num_steps (Some nrm') err tm' = Inr n))"
proof (intro conjI impI)
  assume "x = x' \<and> e = e' \<and> t = t'"
  then show "num_steps x e t = num_steps x' e' t'" by simp
next
  assume h: "0 < req_error \<and> 0 < total_time \<and> nrm_lo \<le> nrm_hi
        \<and> num_steps (Some nrm_lo) req_error total_time = Inr a
        \<and> num_steps (Some nrm_hi) req_error total_time = Inr b"
  then have pos: "0 < req_error" and le: "nrm_lo \<le> nrm_hi"
    and ra: "num_steps (Some nrm_lo) req_error total_time = Inr a"
    and rb: "num_steps (Some nrm_hi) req_error total_time = Inr b"
    by blast+
  have a: "a = \<lceil>total_time powr (3/2) * sqrt (nrm_lo / req_error)\<rceil>"
    using num_steps_InrD[OF ra] by blast
  have b: "b = \<lceil>total_time powr (3/2) * sqrt (nrm_hi / req_error)\<rceil>"
    using num_steps_InrD[OF rb] by blast
  have "nrm_lo / req_error \<le> nrm_hi / req_error"
    using pos le by (simp add: divide_right_mono)
  then have "sqrt (nrm_lo / req_error) \<le> sqrt (nrm_hi / req_error)" by simp
  then have "total_time powr (3/2) * sqrt (nrm_lo / req_error)
               \<le> total_time powr (3/2) * sqrt (nrm_hi / req_error)"
    by (intro mult_left_mono) simp_all
  then show "a \<le> b" unfolding a b by (rule ceiling_mono)
next
  assume h: "0 < nrm \<and> err_lo \<le> err_hi
        \<and> num_steps (Some nrm) err_lo tm = Inr c
        \<and> num_steps (Some nrm) err_hi tm = Inr d"
  then have pos: "0 < nrm" and le: "err_lo \<le> err_hi"
    and rc: "num_steps (Some nrm) err_lo tm = Inr c"
    and rd: "num_steps (Some nrm) err_hi tm = Inr d"
    by blast+
  have c: "c = \<lceil>tm powr (3/2) * sqrt (nrm / err_lo)\<rceil>"
    and ne: "err_lo \<noteq> 0" and ratio: "0 \<le> nrm / err_lo"
    using num_steps_InrD[OF rc] by blast+
  have d: "d = \<lceil>tm powr (3/2) * sqrt (nrm / err_hi)\<rceil>"
    using num_steps_InrD[OF rd] by blast
  have "0 < err_lo" using ne ratio pos by (simp add: zero_le_divide_iff)
  then have "nrm / err_hi \<le> nrm / err_lo" using pos le by (simp add: frac_le)
  then have "sqrt (nrm / err_hi) \<le> sqrt (nrm / err_lo)" by simp
  then have "tm powr (3/2) * sqrt (nrm / err_hi) \<le> tm powr (3/2) * sqrt (nrm / err_lo)"
    by (intro mult_left_mono) simp_all
  then show "d \<le> c" unfolding c d by (rule ceiling_mono)
next
  assume "0 \<le> nrm' \<and> 0 < err \<and> 0 \<le> tm'"
  then show "\<exists>n. num_steps (Some nrm') err tm' = Inr n"
    using num_steps_nonneg[of nrm' err tm'] by simp
qed

theorem num_steps_monotone_witness:
  "(num_steps (Some 1) 1 1 = Inr 1 \<and> num_steps (Some 4) 1 1 = Inr 2 \<and> (1::int) \<le> 2)
   \<and> (num_steps (Some 4) 1 1 = Inr 2 \<and> num_steps (Some 4) 4 1 = Inr 1 \<and> (1::int) \<le> 2)
   \<and> (\<exists>n. num_steps (Some 1) 1 1 = Inr n)"
  using num_steps_monotone[where x = "Some 1" and x' = "Some 1" and e = 1 and e' = 1
      and t = 1 and t' = 1
      and req_error = 1 and total_time = 1 and nrm_lo = 1 and nrm_hi = 4 and a = 1 and b = 2
      and nrm = 4 and err_lo = 1 and err_hi = 4 and tm = 1 and c = 2 and d = 1
      and nrm' = 1 and err = 1 and tm' = 1]
  by (simp add: num_steps_samples del: num_steps.simps)

subsection \<open>C3: the QFT resource override\<close>



subsection \<open>C4: the cost of a second-order Trotter step\<close>

text \<open>
  C4 states that every fragment enters the step cost, the two fragments with the largest
  Toffoli counts once and every other fragment twice. The loop skips every estimate that
  is equal to one of the two selected ones, so a third fragment with the same estimate is
  not counted at all. Three fragments, the last one kinetic and the other two with one
  linear term each, give the list of the kinetic estimate and twice the estimate of the
  linear term; on it the code returns 5358 + 146 = 5504 Toffoli gates, and the schedule
  of the claim costs 5358 + 146 + 2 \<cdot> 146 = 5796.
\<close>

theorem step_res_drops_equal_fragment:
  "res_list (\<lambda>frag. (1, 0, 0)) sample_kinetic sample_Q sample_Qsquared sample_QrQs
       [''f0'', ''f1'', ''kinetic'']
     = [sample_kinetic, sample_Q, sample_Q]
   \<and> map_sum id toffoli (step_res [sample_kinetic, sample_Q, sample_Q]) = Inr 5504
   \<and> toffoli (scheduled_step_cost [sample_kinetic, sample_Q, sample_Q]) = 5796"
  by (simp add: res_list_def res_frag_one_linear_term
        step_res_def scheduled_step_cost_def sorted_by_toffoli_desc_def
        toffoli_res_add toffoli_weighted_sum)

subsection \<open>C5: the cost of a fragment\<close>

text \<open>
  C5: the estimate of a fragment with term counts \<open>(num_Qr, num_Qr2, num_QrQs)\<close> is the
  weighted sum \<open>num_Qr \<cdot> res_Q + num_Qr2 \<cdot> res_Qsquared + num_QrQs \<cdot> res_QrQs\<close>:
  every gate count is the weighted sum of the three unit gate counts, and the qubit
  count is the largest of the three. This is the estimate the loop stores for every
  fragment but the last (kinetic) one.
\<close>

theorem res_frag_weighted_sum:
  "res_frag (num_Qr, num_Qr2, num_QrQs) res_Q res_Qsquared res_QrQs
     = weighted_sum [(num_Qr, res_Q), (num_Qr2, res_Qsquared), (num_QrQs, res_QrQs)]
   \<and> gate_counts (res_frag (num_Qr, num_Qr2, num_QrQs) res_Q res_Qsquared res_QrQs) g
     = num_Qr * gate_counts res_Q g + num_Qr2 * gate_counts res_Qsquared g
       + num_QrQs * gate_counts res_QrQs g
   \<and> qubit_count (res_frag (num_Qr, num_Qr2, num_QrQs) res_Q res_Qsquared res_QrQs)
     = max (max (qubit_count res_Q) (qubit_count res_Qsquared)) (qubit_count res_QrQs)
   \<and> (i < length fragments - 1
        \<and> count_nonzero_Q_terms (fragments ! i) = (num_Qr, num_Qr2, num_QrQs)
      \<longrightarrow> res_list count_nonzero_Q_terms res_kinetic res_Q res_Qsquared res_QrQs fragments
            ! Suc i
          = res_frag (num_Qr, num_Qr2, num_QrQs) res_Q res_Qsquared res_QrQs)"
proof (intro conjI impI)
  show "res_frag (num_Qr, num_Qr2, num_QrQs) res_Q res_Qsquared res_QrQs
     = weighted_sum [(num_Qr, res_Q), (num_Qr2, res_Qsquared), (num_QrQs, res_QrQs)]"
    by (rule res_frag_eq_weighted_sum)
  show "gate_counts (res_frag (num_Qr, num_Qr2, num_QrQs) res_Q res_Qsquared res_QrQs) g
     = num_Qr * gate_counts res_Q g + num_Qr2 * gate_counts res_Qsquared g
       + num_QrQs * gate_counts res_QrQs g"
    by (simp add: res_frag_def mult.commute)
  show "qubit_count (res_frag (num_Qr, num_Qr2, num_QrQs) res_Q res_Qsquared res_QrQs)
     = max (max (qubit_count res_Q) (qubit_count res_Qsquared)) (qubit_count res_QrQs)"
    by (simp add: res_frag_def)
next
  assume h: "i < length fragments - 1
        \<and> count_nonzero_Q_terms (fragments ! i) = (num_Qr, num_Qr2, num_QrQs)"
  then have i: "i < length (butlast fragments)" by simp
  then have "butlast fragments ! i = fragments ! i" by (rule nth_butlast)
  then show "res_list count_nonzero_Q_terms res_kinetic res_Q res_Qsquared res_QrQs fragments
            ! Suc i
          = res_frag (num_Qr, num_Qr2, num_QrQs) res_Q res_Qsquared res_QrQs"
    using h i by (simp add: res_list_def)
qed

theorem res_frag_weighted_sum_witness:
  "(0::nat) < length [''f0'', ''f1'', ''kinetic''] - 1
   \<and> res_list (\<lambda>frag. if frag = ''f0'' then (2, 1, 1) else (0, 0, 0))
        sample_kinetic sample_Q sample_Qsquared sample_QrQs [''f0'', ''f1'', ''kinetic''] ! Suc 0
      = res_frag (2, 1, 1) sample_Q sample_Qsquared sample_QrQs
   \<and> toffoli (res_frag (2, 1, 1) sample_Q sample_Qsquared sample_QrQs) = 874"
  using res_frag_weighted_sum
          [where i = 0 and fragments = "[''f0'', ''f1'', ''kinetic'']"
             and count_nonzero_Q_terms = "\<lambda>frag. if frag = ''f0'' then (2, 1, 1) else (0, 0, 0)"
             and num_Qr = 2 and ?num_Qr2.0 = 1 and num_QrQs = 1
             and res_kinetic = sample_kinetic
             and res_Q = sample_Q and res_Qsquared = sample_Qsquared and res_QrQs = sample_QrQs
             and g = Toffoli]
  by (simp add: toffoli_weighted_sum)

subsection \<open>C6: the check of the norms against None\<close>

text \<open>
  C6 states that a norm that is \<^verbatim>\<open>None\<close> is never passed to \<open>num_steps\<close>. Both
  guards of the step-count cell test \<^verbatim>\<open>norm_OG\<close>. With an OG norm present and the
  mode-based norm absent, \<^verbatim>\<open>None\<close> reaches \<open>num_steps\<close> and the cell raises
  \<^verbatim>\<open>TypeError\<close>.
\<close>

theorem step_count_cell_mode_norm_missing:
  "step_count_cell (Some 1) None (1/100) 152 = Inl TypeError
   \<and> cost_cells (Some 1) None (1/100) 152 res_initial step_OG step_mode = Inl TypeError"
proof -
  have "\<exists>n. num_steps (Some 1) (1/100) 152 = Inr n"
    using num_steps_nonneg[of 1 "1/100" 152] by simp
  then obtain n where n: "num_steps (Some 1) (1/100) 152 = Inr n" ..
  have "step_count_cell (Some 1) None (1/100) 152 = Inl TypeError"
    unfolding step_count_cell_def by (simp add: n del: num_steps.simps(2))
  then show ?thesis by (simp add: cost_cells_def)
qed

subsection \<open>C7: resource estimates form a commutative monoid\<close>



subsection \<open>C9: the QFT decomposition frees what it allocates\<close>



subsection \<open>C10: no bilinear couplings\<close>

text \<open>
  C10: when the coupling dictionary has no entry 2, and the statements before the branch
  succeed (entries 0 and 1 exist, \<^verbatim>\<open>alphas\<close> has at least three axes and \<open>N\<close> is
  positive, as \<^verbatim>\<open>math.log2\<close> requires), the cell raises no exception, \<^verbatim>\<open>QVC\<close>
  is false and \<^verbatim>\<open>betas\<close> is the array of shape \<open>(N, N, M, M)\<close> whose
  \<open>N \<cdot> N \<cdot> M \<cdot> M\<close> entries are all zero.
\<close>

theorem betas_zero_without_quadratic_couplings:
  assumes "2 \<notin> dom couplings"
    and "couplings 0 = Some lam"
    and "couplings 1 = Some al"
    and "shape al = n # d # m # rest"
    and "0 < n"
  shows "\<exists>h. load_hamiltonian oms couplings = Inr h
           \<and> \<not> QVC h \<and> N h = n \<and> M h = m
           \<and> betas h = np_zeros [N h, N h, M h, M h]
           \<and> shape (betas h) = [n, n, m, m]
           \<and> length (elems (betas h)) = n * n * m * m
           \<and> set (elems (betas h)) \<subseteq> {0}"
  using assms
  by (auto simp add: load_hamiltonian_def shape_at_def py_ceil_log2_def np_zeros_def)

theorem betas_zero_without_quadratic_couplings_witness:
  "(2::int) \<notin> dom sample_couplings
   \<and> shape sample_alphas = 2 # 2 # 3 # []
   \<and> (\<exists>h. load_hamiltonian [] sample_couplings = Inr h
          \<and> \<not> QVC h
          \<and> shape (betas h) = [2, 2, 3, 3]
          \<and> length (elems (betas h)) = 36
          \<and> set (elems (betas h)) \<subseteq> {0})"
  using betas_zero_without_quadratic_couplings
          [of sample_couplings sample_lambdas sample_alphas
              2 2 3 "[]" "[]"]
  by (auto simp add: sample_alphas_def sample_couplings_def)

end
